theory Spec2Isabelle
  imports Complex_Main
begin

section \<open>JavaScript values and the strict equality operator\<close>

text \<open>
  The hook \<open>useHistoryState<T>\<close> is generic, and TypeScript erases \<open>T\<close>: at run time
  the stored snapshots are JavaScript values. A value is a primitive or a reference to an
  object (arrays and functions included) that lives at an address of the heap. The
  application instantiates \<open>T\<close> with \<open>Contact[]\<close>, an array reference.
\<close>

type_synonym addr = nat

text \<open>
  Numbers: \<open>Fin x\<close> is the finite number \<open>x\<close> (\<open>Fin 0\<close> is \<open>+0\<close>), \<open>NegZero\<close> is
  \<open>-0\<close>. Only the comparison of numbers is used below, never their arithmetic.
\<close>

datatype jsnum = NaN | PosInf | NegInf | NegZero | Fin real

datatype jsval =
    JSUndefined
  | JSNull
  | JSBoolean bool
  | JSNumber jsnum
  | JSString string
  | JSBigInt int
  | JSSymbol addr
  | JSObject addr

text \<open>
  \<open>Number::equal\<close> of ECMAScript: \<open>NaN\<close> equals nothing, itself included, and the two
  zeros equal each other.
\<close>

definition number_equal :: "jsnum \<Rightarrow> jsnum \<Rightarrow> bool" where
  "number_equal x y =
     (if x = NaN then False
      else if y = NaN then False
      else if x = y then True
      else if x = Fin 0 \<and> y = NegZero then True
      else if x = NegZero \<and> y = Fin 0 then True
      else False)"

text \<open>
  The operator \<open>===\<close> (\<open>IsStrictlyEqual\<close>): values of different types differ, numbers
  are compared by \<open>Number::equal\<close>, every other primitive by its value, and objects by
  their address.
\<close>

fun strict_eq :: "jsval \<Rightarrow> jsval \<Rightarrow> bool" where
  "strict_eq (JSNumber x) (JSNumber y) = number_equal x y"
| "strict_eq v w = (v = w)"

text \<open>
  The heap gives the own properties of the object at an address. The hook never reads it;
  it is here to say what "structurally equal" means for two references: the objects they
  point to have the same properties with the same values.
\<close>

type_synonym jsobj = "(string \<times> jsval) list"
type_synonym heap = "addr \<Rightarrow> jsobj option"

definition structurally_equal :: "heap \<Rightarrow> jsval \<Rightarrow> jsval \<Rightarrow> bool" where
  "structurally_equal h v w =
     (case (v, w) of
        (JSObject a, JSObject b) \<Rightarrow>
          (case (h a, h b) of (Some ps, Some qs) \<Rightarrow> ps = qs | _ \<Rightarrow> False)
      | _ \<Rightarrow> strict_eq v w)"

section \<open>Arrays\<close>

text \<open>
  \<open>arr[i]\<close>: an index outside the array reads \<open>undefined\<close>, here \<open>None\<close>.
\<close>

definition js_index :: "'a list \<Rightarrow> int \<Rightarrow> 'a option" where
  "js_index arr i = (if 0 \<le> i \<and> i < int (length arr) then Some (arr ! nat i) else None)"

text \<open>
  \<open>arr.slice(start, end)\<close>: a negative bound counts from the end of the array, both
  bounds are clamped to the array, and an omitted \<open>end\<close> (\<open>None\<close>) is the length.
\<close>

definition js_slice :: "'a list \<Rightarrow> int \<Rightarrow> int option \<Rightarrow> 'a list" where
  "js_slice arr start stop =
     (let len = int (length arr);
          k = (if start < 0 then max (len + start) 0 else min start len);
          relativeEnd = (case stop of None \<Rightarrow> len | Some e \<Rightarrow> e);
          final = (if relativeEnd < 0 then max (len + relativeEnd) 0 else min relativeEnd len)
      in take (nat (final - k)) (drop (nat k) arr))"

section \<open>The history state\<close>

record 'a HistoryEntry =
  state :: 'a
  label :: string

record 'a HistoryState =
  past :: "'a HistoryEntry list"
  present :: "'a HistoryEntry"
  future :: "'a HistoryEntry list"

text \<open>
  The state cell that \<open>useState\<close> creates at the first render. A parameter with a default
  value takes it when the argument is omitted (\<open>None\<close>).
\<close>

definition useHistoryState_init :: "'a \<Rightarrow> string option \<Rightarrow> 'a HistoryState" where
  "useHistoryState_init initialPresent initialLabel =
     \<lparr>past = [],
      present = \<lparr>state = initialPresent,
                 label = (case initialLabel of None \<Rightarrow> ''Initial State'' | Some l \<Rightarrow> l)\<rparr>,
      future = []\<rparr>"

subsection \<open>What a render returns\<close>

text \<open>
  Each of the following takes the content \<open>st\<close> of the state cell at the render that
  computed it.
\<close>

definition canUndo :: "'a HistoryState \<Rightarrow> bool" where
  "canUndo st = (length (past st) > 0)"

definition canRedo :: "'a HistoryState \<Rightarrow> bool" where
  "canRedo st = (length (future st) > 0)"

definition history :: "'a HistoryState \<Rightarrow> 'a HistoryEntry list" where
  "history st = past st @ [present st]"

definition currentLabel :: "'a HistoryState \<Rightarrow> string" where
  "currentLabel st = label (present st)"

definition returned_state :: "'a HistoryState \<Rightarrow> 'a" where
  "returned_state st = state (present st)"

subsection \<open>The updaters handed to \<open>setState\<close>\<close>

text \<open>
  \<open>setState\<close> applies an updater to the content of the state cell at the time the update
  is processed. The updater of \<open>undo\<close> reads \<open>past[past.length - 1]\<close>; on an empty
  \<open>past\<close> that is \<open>undefined\<close>, and the state it would build has no \<open>present\<close> entry, so
  that the next render fails at \<open>state.present.state\<close>. That outcome is \<open>None\<close>. The
  updater of \<open>redo\<close> reads \<open>future[0]\<close> in the same way.
\<close>

definition undo_updater :: "'a HistoryState \<Rightarrow> 'a HistoryState option" where
  "undo_updater cur =
     (let previous = js_index (past cur) (int (length (past cur)) - 1);
          newPast = js_slice (past cur) 0 (Some (int (length (past cur)) - 1))
      in case previous of
           None \<Rightarrow> None
         | Some prev \<Rightarrow>
             Some \<lparr>past = newPast, present = prev, future = present cur # future cur\<rparr>)"

definition redo_updater :: "'a HistoryState \<Rightarrow> 'a HistoryState option" where
  "redo_updater cur =
     (let next = js_index (future cur) 0;
          newFuture = js_slice (future cur) 1 None
      in case next of
           None \<Rightarrow> None
         | Some nxt \<Rightarrow>
             Some \<lparr>past = past cur @ [present cur], present = nxt, future = newFuture\<rparr>)"

text \<open>
  The first argument of \<open>set\<close> is a new value or, when \<open>typeof\<close> says it is a function, a
  function from the current value to the new one. So a reference passed as a new value
  (\<open>Value (JSObject a)\<close>) points to an object that is not a function. The function is
  taken to return a value, as the hook does not catch what it throws.
\<close>

datatype 'a SetStateAction = Value 'a | Updater "'a \<Rightarrow> 'a"

definition resolvedPresentState :: "'a SetStateAction \<Rightarrow> 'a HistoryState \<Rightarrow> 'a" where
  "resolvedPresentState newPresentState cur =
     (case newPresentState of
        Updater f \<Rightarrow> f (state (present cur))
      | Value v \<Rightarrow> v)"

definition set_updater ::
    "jsval SetStateAction \<Rightarrow> string \<Rightarrow> jsval HistoryState \<Rightarrow> jsval HistoryState" where
  "set_updater newPresentState lbl cur =
     (let resolved = resolvedPresentState newPresentState cur
      in if strict_eq resolved (state (present cur)) then cur
         else
           (let newPresentEntry = \<lparr>state = resolved, label = lbl\<rparr>
            in \<lparr>past = past cur @ [present cur], present = newPresentEntry, future = []\<rparr>))"

definition clearHistory_updater :: "'a HistoryState \<Rightarrow> 'a HistoryState" where
  "clearHistory_updater cur = cur\<lparr>past := [], future := []\<rparr>"

subsection \<open>The callbacks\<close>

text \<open>
  \<open>undo\<close> and \<open>redo\<close> are rebuilt when \<open>canUndo\<close> (\<open>canRedo\<close>) changes, so the callback of
  the render with state \<open>st\<close> tests the flag of \<open>st\<close>; its updater then runs on the content
  \<open>cur\<close> of the state cell. A call made from the latest render has \<open>cur = st\<close>.
\<close>

definition undo :: "'a HistoryState \<Rightarrow> 'a HistoryState \<Rightarrow> 'a HistoryState option" where
  "undo st cur = (if \<not> canUndo st then Some cur else undo_updater cur)"

definition redo :: "'a HistoryState \<Rightarrow> 'a HistoryState \<Rightarrow> 'a HistoryState option" where
  "redo st cur = (if \<not> canRedo st then Some cur else redo_updater cur)"

text \<open>
  The default label of \<open>set\<close> is computed at the call from the clock; \<open>now\<close> is the text
  that \<open>new Date().toLocaleTimeString()\<close> returns then.
\<close>

definition set_label :: "string option \<Rightarrow> string \<Rightarrow> string" where
  "set_label lbl now = (case lbl of None \<Rightarrow> ''Update at '' @ now | Some l \<Rightarrow> l)"

definition set_present ::
    "jsval SetStateAction \<Rightarrow> string option \<Rightarrow> string \<Rightarrow> jsval HistoryState \<Rightarrow> jsval HistoryState" where
  "set_present newPresentState lbl now cur = set_updater newPresentState (set_label lbl now) cur"

definition setInitial :: "'a \<Rightarrow> string option \<Rightarrow> 'a HistoryState \<Rightarrow> 'a HistoryState" where
  "setInitial initialState lbl cur =
     \<lparr>past = [],
      present = \<lparr>state = initialState,
                 label = (case lbl of None \<Rightarrow> ''Initial State'' | Some l \<Rightarrow> l)\<rparr>,
      future = []\<rparr>"

definition clearHistory :: "'a HistoryState \<Rightarrow> 'a HistoryState" where
  "clearHistory cur = clearHistory_updater cur"

subsection \<open>Sequences of calls\<close>

text \<open>
  A call made from the latest render, followed by the render that the update triggers.
  \<open>Set\<close> carries the clock reading of its call.
\<close>

datatype call =
    Set "jsval SetStateAction" "string option" string
  | Undo
  | Redo
  | SetInitial jsval "string option"
  | ClearHistory

fun perform :: "call \<Rightarrow> jsval HistoryState \<Rightarrow> jsval HistoryState option" where
  "perform (Set newPresentState lbl now) st = Some (set_present newPresentState lbl now st)"
| "perform Undo st = undo st st"
| "perform Redo st = redo st st"
| "perform (SetInitial initialState lbl) st = Some (setInitial initialState lbl st)"
| "perform ClearHistory st = Some (clearHistory st)"

fun run :: "call list \<Rightarrow> jsval HistoryState \<Rightarrow> jsval HistoryState option" where
  "run [] st = Some st"
| "run (c # cs) st = (case perform c st of None \<Rightarrow> None | Some st' \<Rightarrow> run cs st')"

text \<open>
  Calls made one after the other in one event handler all come from the same render
  \<open>st\<close>: \<open>undo\<close> and \<open>redo\<close> test the flags of \<open>st\<close>, and the updaters are applied in
  the order of the calls, each to the result of the one before. A session is a list of
  handlers with a render after each; the render reads \<open>state.present.state\<close> and fails
  when the cell has no \<open>present\<close> entry.
\<close>

fun perform_from :: "jsval HistoryState \<Rightarrow> call \<Rightarrow> jsval HistoryState \<Rightarrow> jsval HistoryState option" where
  "perform_from st (Set newPresentState lbl now) cur = Some (set_present newPresentState lbl now cur)"
| "perform_from st Undo cur = undo st cur"
| "perform_from st Redo cur = redo st cur"
| "perform_from st (SetInitial initialState lbl) cur = Some (setInitial initialState lbl cur)"
| "perform_from st ClearHistory cur = Some (clearHistory cur)"

fun handler :: "jsval HistoryState \<Rightarrow> call list \<Rightarrow> jsval HistoryState \<Rightarrow> jsval HistoryState option" where
  "handler st [] cur = Some cur"
| "handler st (c # cs) cur =
     (case perform_from st c cur of None \<Rightarrow> None | Some cur' \<Rightarrow> handler st cs cur')"

fun session :: "call list list \<Rightarrow> jsval HistoryState \<Rightarrow> jsval HistoryState option" where
  "session [] st = Some st"
| "session (cs # css) st =
     (case handler st cs st of None \<Rightarrow> None | Some st' \<Rightarrow> session css st')"

text \<open>The whole timeline that a state holds, oldest entry first.\<close>

definition timeline :: "'a HistoryState \<Rightarrow> 'a HistoryEntry list" where
  "timeline st = past st @ [present st] @ future st"

text \<open>
  Blocks of undos followed by as many redos: \<open>alternating [2, 1]\<close> is undo, undo, redo,
  redo, undo, redo.
\<close>

fun alternating :: "nat list \<Rightarrow> call list" where
  "alternating [] = []"
| "alternating (n # ns) = replicate n Undo @ replicate n Redo @ alternating ns"

text \<open>Entries that hold a finite number, for the examples.\<close>

definition num_entry :: "real \<Rightarrow> string \<Rightarrow> jsval HistoryEntry" where
  "num_entry x lbl = \<lparr>state = JSNumber (Fin x), label = lbl\<rparr>"

section \<open>Array reads of the two updaters\<close>

lemma js_index_last:
  "arr \<noteq> [] \<Longrightarrow> js_index arr (int (length arr) - 1) = Some (last arr)"
  by (cases arr rule: rev_cases) (simp_all add: js_index_def nth_append)

lemma js_index_last_empty: "js_index [] (int (length ([]::'a list)) - 1) = (None::'a option)"
  by (simp add: js_index_def)

lemma js_slice_butlast:
  "js_slice arr 0 (Some (int (length arr) - 1)) = butlast arr"
  by (cases arr rule: rev_cases) (simp_all add: js_slice_def Let_def)

lemma js_index_first: "js_index (x # xs) 0 = Some x"
  by (simp add: js_index_def)

lemma js_index_first_empty: "js_index [] 0 = None"
  by (simp add: js_index_def)

lemma js_slice_tail: "js_slice arr 1 None = tl arr"
  by (cases arr) (simp_all add: js_slice_def Let_def drop_Suc)

lemma undo_updater_nonempty:
  "past cur \<noteq> [] \<Longrightarrow>
   undo_updater cur =
     Some \<lparr>past = butlast (past cur), present = last (past cur),
           future = present cur # future cur\<rparr>"
  by (simp add: undo_updater_def Let_def js_index_last js_slice_butlast)

lemma redo_updater_nonempty:
  "future cur \<noteq> [] \<Longrightarrow>
   redo_updater cur =
     Some \<lparr>past = past cur @ [present cur], present = hd (future cur),
           future = tl (future cur)\<rparr>"
  by (cases "future cur") (simp_all add: redo_updater_def Let_def js_index_first js_slice_tail)

section \<open>Calls made from the latest render\<close>

lemma undo_latest:
  "undo st st = (if past st = [] then Some st
     else Some \<lparr>past = butlast (past st), present = last (past st),
                future = present st # future st\<rparr>)"
  by (simp add: undo_def canUndo_def undo_updater_nonempty)

lemma redo_latest:
  "redo st st = (if future st = [] then Some st
     else Some \<lparr>past = past st @ [present st], present = hd (future st),
                future = tl (future st)\<rparr>)"
  by (simp add: redo_def canRedo_def redo_updater_nonempty)

lemma undo_then_redo:
  assumes "past st \<noteq> []" and "undo st st = Some u"
  shows "redo u u = Some st"
proof -
  from assms have u: "u = \<lparr>past = butlast (past st), present = last (past st),
                future = present st # future st\<rparr>"
    by (simp add: undo_latest)
  show ?thesis
    using assms(1) by (simp add: u redo_latest)
qed

lemma run_append:
  "run (cs @ ds) st = (case run cs st of None \<Rightarrow> None | Some st' \<Rightarrow> run ds st')"
  by (induction cs arbitrary: st) (simp_all split: option.splits)

lemma undos_then_redos:
  "n \<le> length (past st) \<Longrightarrow> run (replicate n Undo @ replicate n Redo) st = Some st"
proof (induction n arbitrary: st)
  case 0
  then show ?case by simp
next
  case (Suc n)
  then have ne: "past st \<noteq> []" by auto
  define u where "u = \<lparr>past = butlast (past st), present = last (past st),
                future = present st # future st\<rparr>"
  have step: "undo st st = Some u"
    using ne by (simp add: undo_latest u_def)
  have "n \<le> length (past u)"
    using Suc.prems by (simp add: u_def)
  then have inner: "run (replicate n Undo @ replicate n Redo) u = Some u"
    by (rule Suc.IH)
  have again: "redo u u = Some st"
    using ne step by (rule undo_then_redo)
  have "replicate (Suc n) Undo @ replicate (Suc n) Redo =
        Undo # ((replicate n Undo @ replicate n Redo) @ [Redo])"
    by (simp add: replicate_append_same)
  then show ?case
    using step inner again by (simp add: run_append del: replicate_Suc append_assoc)
qed

lemma run_alternating:
  "\<forall>n\<in>set ns. n \<le> length (past st) \<Longrightarrow> run (alternating ns) st = Some st"
proof (induction ns)
  case Nil
  then show ?case by simp
next
  case (Cons n ns)
  have "run (alternating (n # ns)) st =
        (case run (replicate n Undo @ replicate n Redo) st of None \<Rightarrow> None
         | Some st' \<Rightarrow> run (alternating ns) st')"
    using run_append [of "replicate n Undo @ replicate n Redo" "alternating ns" st] by simp
  with Cons show ?case by (simp add: undos_then_redos)
qed

lemma undo_redo_pairs:
  "past st \<noteq> [] \<Longrightarrow> run (concat (replicate k [Undo, Redo])) st = Some st"
proof (induction k)
  case 0
  show ?case by simp
next
  case (Suc k)
  obtain u where step: "undo st st = Some u"
    using Suc.prems by (simp add: undo_latest)
  have "redo u u = Some st"
    using Suc.prems step by (rule undo_then_redo)
  with step Suc show ?case by simp
qed

lemma perform_total: "\<exists>st'. perform c st = Some st'"
  by (cases c) (simp_all add: undo_latest redo_latest)

lemma run_total: "\<exists>st'. run cs st = Some st'"
proof (induction cs arbitrary: st)
  case Nil
  show ?case by simp
next
  case (Cons c cs)
  obtain st' where "perform c st = Some st'"
    using perform_total by blast
  with Cons.IH [of st'] show ?case by simp
qed

lemma set_present_changed:
  "\<not> strict_eq (resolvedPresentState newPresentState cur) (state (present cur)) \<Longrightarrow>
   set_present newPresentState lbl now cur =
     \<lparr>past = past cur @ [present cur],
      present = \<lparr>state = resolvedPresentState newPresentState cur, label = set_label lbl now\<rparr>,
      future = []\<rparr>"
  by (simp add: set_present_def set_updater_def Let_def)

lemma set_present_same:
  "strict_eq (resolvedPresentState newPresentState cur) (state (present cur)) \<Longrightarrow>
   set_present newPresentState lbl now cur = cur"
  by (simp add: set_present_def set_updater_def Let_def)

section \<open>Calls made from any render\<close>

text \<open>
  When the state cell has moved on since the render that built the callback (two calls
  with no render between them), the flag that the callback tests is the older one. With
  the flag still true and nothing left to move, the updater builds a state without a
  \<open>present\<close> entry; with the flag still false, the call returns at once although the
  cell has an entry to move.
\<close>

lemma undo_stale_flag: "canUndo st \<Longrightarrow> past cur = [] \<Longrightarrow> undo st cur = None"
  by (simp add: undo_def undo_updater_def Let_def js_index_def)

lemma redo_stale_flag: "canRedo st \<Longrightarrow> future cur = [] \<Longrightarrow> redo st cur = None"
  by (simp add: redo_def redo_updater_def Let_def js_index_def)

lemma undo_cases:
  "undo st cur =
     (if past st = [] then Some cur
      else if past cur = [] then None
      else Some \<lparr>past = butlast (past cur), present = last (past cur),
                 future = present cur # future cur\<rparr>)"
  by (simp add: undo_def canUndo_def undo_updater_nonempty)
     (simp add: undo_updater_def Let_def js_index_def)

lemma redo_cases:
  "redo st cur =
     (if future st = [] then Some cur
      else if future cur = [] then None
      else Some \<lparr>past = past cur @ [present cur], present = hd (future cur),
                 future = tl (future cur)\<rparr>)"
  by (simp add: redo_def canRedo_def redo_updater_nonempty)
     (simp add: redo_updater_def Let_def js_index_def)

lemma undo_then_redo_guards:
  assumes "past cur \<noteq> []" and "canUndo f1" and "canRedo f2"
  shows "\<exists>u. undo f1 cur = Some u \<and> u \<noteq> cur \<and> redo f2 u = Some cur"
proof -
  define u where "u = \<lparr>past = butlast (past cur), present = last (past cur),
                       future = present cur # future cur\<rparr>"
  have step: "undo f1 cur = Some u"
    using assms by (simp add: undo_cases canUndo_def u_def)
  have "length (past u) \<noteq> length (past cur)"
    using assms(1) by (cases "past cur") (simp_all add: u_def)
  then have "u \<noteq> cur" by auto
  moreover have "redo f2 u = Some cur"
    using assms by (simp add: redo_cases canRedo_def u_def)
  ultimately show ?thesis using step by blast
qed

text \<open>With one call per render both operations keep the timeline.\<close>

lemma timeline_conserved_per_render:
  "(\<exists>u. undo st st = Some u \<and> timeline u = timeline st)
   \<and> (\<exists>r. redo st st = Some r \<and> timeline r = timeline st)"
proof (intro conjI)
  show "\<exists>u. undo st st = Some u \<and> timeline u = timeline st"
  proof (cases "past st" rule: rev_cases)
    case Nil
    then show ?thesis by (simp add: undo_latest)
  next
    case (snoc ps p)
    then show ?thesis by (simp add: undo_latest timeline_def)
  qed
  show "\<exists>r. redo st st = Some r \<and> timeline r = timeline st"
  proof (cases "future st")
    case Nil
    then show ?thesis by (simp add: redo_latest)
  next
    case (Cons f fs)
    then show ?thesis by (simp add: redo_latest timeline_def)
  qed
qed

section \<open>Properties of the history manager\<close>

text \<open>
  C1: for every state and every call of \<open>set\<close> whose resolved value is not \<open>===\<close> to
  the present value, the call appends the present entry to the end of \<open>past\<close>, installs
  the entry made of the resolved value and the label (the label given, or the default
  built from the clock when none is given), and empties \<open>future\<close>; afterwards \<open>canUndo\<close>
  is true and \<open>canRedo\<close> is false.
\<close>

theorem set_appends_present_clears_future:
  assumes "\<not> strict_eq (resolvedPresentState newPresentState cur) (state (present cur))"
  shows "set_present newPresentState (Some lbl) now cur =
           \<lparr>past = past cur @ [present cur],
            present = \<lparr>state = resolvedPresentState newPresentState cur, label = lbl\<rparr>,
            future = []\<rparr>
         \<and> set_present newPresentState None now cur =
           \<lparr>past = past cur @ [present cur],
            present = \<lparr>state = resolvedPresentState newPresentState cur,
                       label = ''Update at '' @ now\<rparr>,
            future = []\<rparr>
         \<and> canUndo (set_present newPresentState l now cur)
         \<and> \<not> canRedo (set_present newPresentState l now cur)"
  using assms by (simp add: set_present_changed canUndo_def canRedo_def set_label_def)

theorem set_appends_present_clears_future_witness:
  "\<not> strict_eq
       (resolvedPresentState (Value (JSNumber (Fin 5)))
          \<lparr>past = [num_entry 0 ''Initial State''], present = num_entry 1 ''inc'',
           future = [num_entry 2 ''inc'']\<rparr>)
       (state (present
          \<lparr>past = [num_entry 0 ''Initial State''], present = num_entry 1 ''inc'',
           future = [num_entry 2 ''inc'']\<rparr>))
   \<and> set_present (Value (JSNumber (Fin 5))) (Some ''jump'') ''10:15:00 AM''
       \<lparr>past = [num_entry 0 ''Initial State''], present = num_entry 1 ''inc'',
        future = [num_entry 2 ''inc'']\<rparr>
     = \<lparr>past = [num_entry 0 ''Initial State'', num_entry 1 ''inc''],
        present = num_entry 5 ''jump'', future = []\<rparr>
   \<and> canUndo (set_present (Value (JSNumber (Fin 5))) (Some ''jump'') ''10:15:00 AM''
       \<lparr>past = [num_entry 0 ''Initial State''], present = num_entry 1 ''inc'',
        future = [num_entry 2 ''inc'']\<rparr>)
   \<and> \<not> canRedo (set_present (Value (JSNumber (Fin 5))) (Some ''jump'') ''10:15:00 AM''
       \<lparr>past = [num_entry 0 ''Initial State''], present = num_entry 1 ''inc'',
        future = [num_entry 2 ''inc'']\<rparr>)"
proof -
  let ?S = "\<lparr>past = [num_entry 0 ''Initial State''], present = num_entry 1 ''inc'',
             future = [num_entry 2 ''inc'']\<rparr>"
  have h: "\<not> strict_eq (resolvedPresentState (Value (JSNumber (Fin 5))) ?S) (state (present ?S))"
    by (simp add: resolvedPresentState_def num_entry_def number_equal_def)
  note t = set_appends_present_clears_future
      [OF h, of "''jump''" "''10:15:00 AM''" "Some ''jump''"]
  have e: "set_present (Value (JSNumber (Fin 5))) (Some ''jump'') ''10:15:00 AM'' ?S
     = \<lparr>past = [num_entry 0 ''Initial State'', num_entry 1 ''inc''],
        present = num_entry 5 ''jump'', future = []\<rparr>"
    using t by (simp add: resolvedPresentState_def num_entry_def)
  have c: "canUndo (set_present (Value (JSNumber (Fin 5))) (Some ''jump'') ''10:15:00 AM'' ?S)"
    using t by blast
  have d: "\<not> canRedo (set_present (Value (JSNumber (Fin 5))) (Some ''jump'') ''10:15:00 AM'' ?S)"
    using t by blast
  show ?thesis
    using h e c d by blast
qed

text \<open>
  C2: as stated the property fails: with one entry in \<open>past\<close> and one in \<open>future\<close>, the
  second of two undos has nothing to take and does nothing, and the two redos that
  follow go one entry further than the start.
\<close>

theorem undo_undo_redo_redo_counterexample:
  "past \<lparr>past = [num_entry 0 ''Initial State''], present = num_entry 1 ''inc'',
          future = [num_entry 2 ''inc'']\<rparr> \<noteq> []
   \<and> run [Undo, Undo, Redo, Redo]
        \<lparr>past = [num_entry 0 ''Initial State''], present = num_entry 1 ''inc'',
          future = [num_entry 2 ''inc'']\<rparr>
     = Some \<lparr>past = [num_entry 0 ''Initial State'', num_entry 1 ''inc''],
             present = num_entry 2 ''inc'', future = []\<rparr>
   \<and> run [Undo, Undo, Redo, Redo]
        \<lparr>past = [num_entry 0 ''Initial State''], present = num_entry 1 ''inc'',
          future = [num_entry 2 ''inc'']\<rparr>
     \<noteq> Some \<lparr>past = [num_entry 0 ''Initial State''], present = num_entry 1 ''inc'',
          future = [num_entry 2 ''inc'']\<rparr>"
  by (simp add: undo_latest redo_latest)

text \<open>
  C2: for every state whose \<open>past\<close> is not empty, \<open>undo\<close> followed at once by \<open>redo\<close>
  gives back the very same state (same \<open>past\<close>, \<open>present\<close> and \<open>future\<close>) whenever each of
  the two calls finds its flag true, from whatever render it comes, and so whenever each
  call is made from the latest render. With one call per render, so does any alternation
  undo, redo, undo, redo, ..., and so does any succession of blocks of \<open>n\<close> undos followed
  by \<open>n\<close> redos when \<open>past\<close> holds the \<open>n\<close> entries that the \<open>n\<close> undos take.
\<close>

theorem redo_inverts_undo:
  "(past cur \<noteq> [] \<and> canUndo f1 \<and> canRedo f2 \<longrightarrow>
      (\<exists>u. undo f1 cur = Some u \<and> u \<noteq> cur \<and> redo f2 u = Some cur))
   \<and> (past st \<noteq> [] \<longrightarrow> (\<exists>u. undo st st = Some u \<and> u \<noteq> st \<and> redo u u = Some st))
   \<and> (past st \<noteq> [] \<longrightarrow> run (concat (replicate k [Undo, Redo])) st = Some st)
   \<and> ((\<forall>n\<in>set ns. n \<le> length (past st)) \<longrightarrow> run (alternating ns) st = Some st)"
proof (intro conjI impI)
  assume "past cur \<noteq> [] \<and> canUndo f1 \<and> canRedo f2"
  then show "\<exists>u. undo f1 cur = Some u \<and> u \<noteq> cur \<and> redo f2 u = Some cur"
    by (simp add: undo_then_redo_guards)
next
  assume ne: "past st \<noteq> []"
  define u where "u = \<lparr>past = butlast (past st), present = last (past st),
                       future = present st # future st\<rparr>"
  have step: "undo st st = Some u"
    using ne by (simp add: undo_latest u_def)
  have "length (past u) \<noteq> length (past st)"
    using ne by (cases "past st") (simp_all add: u_def)
  then have "u \<noteq> st" by auto
  moreover have "redo u u = Some st"
    using ne step by (rule undo_then_redo)
  ultimately show "\<exists>u. undo st st = Some u \<and> u \<noteq> st \<and> redo u u = Some st"
    using step by blast
next
  assume "past st \<noteq> []"
  then show "run (concat (replicate k [Undo, Redo])) st = Some st"
    by (rule undo_redo_pairs)
next
  assume "\<forall>n\<in>set ns. n \<le> length (past st)"
  then show "run (alternating ns) st = Some st"
    by (rule run_alternating)
qed

theorem redo_inverts_undo_witness:
  "past \<lparr>past = [num_entry 0 ''Initial State'', num_entry 1 ''inc''],
          present = num_entry 2 ''inc'', future = [num_entry 3 ''inc'']\<rparr> \<noteq> []
   \<and> canUndo \<lparr>past = [num_entry 0 ''Initial State'', num_entry 1 ''inc''],
          present = num_entry 2 ''inc'', future = [num_entry 3 ''inc'']\<rparr>
   \<and> canRedo \<lparr>past = [num_entry 0 ''Initial State'', num_entry 1 ''inc''],
          present = num_entry 2 ''inc'', future = [num_entry 3 ''inc'']\<rparr>
   \<and> 2 \<le> length (past
         \<lparr>past = [num_entry 0 ''Initial State'', num_entry 1 ''inc''],
          present = num_entry 2 ''inc'', future = [num_entry 3 ''inc'']\<rparr>)
   \<and> (\<exists>u. undo \<lparr>past = [num_entry 0 ''Initial State'', num_entry 1 ''inc''],
          present = num_entry 2 ''inc'', future = [num_entry 3 ''inc'']\<rparr>
               \<lparr>past = [num_entry 0 ''Initial State'', num_entry 1 ''inc''],
          present = num_entry 2 ''inc'', future = [num_entry 3 ''inc'']\<rparr> = Some u
          \<and> redo \<lparr>past = [num_entry 0 ''Initial State'', num_entry 1 ''inc''],
          present = num_entry 2 ''inc'', future = [num_entry 3 ''inc'']\<rparr> u = Some \<lparr>past = [num_entry 0 ''Initial State'', num_entry 1 ''inc''],
          present = num_entry 2 ''inc'', future = [num_entry 3 ''inc'']\<rparr>)
   \<and> (\<exists>u. undo \<lparr>past = [num_entry 0 ''Initial State'', num_entry 1 ''inc''],
          present = num_entry 2 ''inc'', future = [num_entry 3 ''inc'']\<rparr>
               \<lparr>past = [num_entry 0 ''Initial State'', num_entry 1 ''inc''],
          present = num_entry 2 ''inc'', future = [num_entry 3 ''inc'']\<rparr> = Some u
          \<and> redo u u = Some \<lparr>past = [num_entry 0 ''Initial State'', num_entry 1 ''inc''],
          present = num_entry 2 ''inc'', future = [num_entry 3 ''inc'']\<rparr>)
   \<and> run [Undo, Redo, Undo, Redo]
        \<lparr>past = [num_entry 0 ''Initial State'', num_entry 1 ''inc''],
          present = num_entry 2 ''inc'', future = [num_entry 3 ''inc'']\<rparr>
      = Some \<lparr>past = [num_entry 0 ''Initial State'', num_entry 1 ''inc''],
          present = num_entry 2 ''inc'', future = [num_entry 3 ''inc'']\<rparr>
   \<and> run [Undo, Undo, Redo, Redo, Undo, Redo]
        \<lparr>past = [num_entry 0 ''Initial State'', num_entry 1 ''inc''],
          present = num_entry 2 ''inc'', future = [num_entry 3 ''inc'']\<rparr>
      = Some \<lparr>past = [num_entry 0 ''Initial State'', num_entry 1 ''inc''],
          present = num_entry 2 ''inc'', future = [num_entry 3 ''inc'']\<rparr>"
proof -
  let ?S = "\<lparr>past = [num_entry 0 ''Initial State'', num_entry 1 ''inc''],
          present = num_entry 2 ''inc'', future = [num_entry 3 ''inc'']\<rparr>"
  have a: "alternating [2, 1, 0] = [Undo, Undo, Redo, Redo, Undo, Redo]"
    by (simp add: numeral_2_eq_2)
  have b: "concat (replicate 2 [Undo, Redo]) = [Undo, Redo, Undo, Redo]"
    by (simp add: numeral_2_eq_2)
  have h0: "past ?S \<noteq> [] \<and> canUndo ?S \<and> canRedo ?S"
    by (simp add: canUndo_def canRedo_def)
  have h1: "past ?S \<noteq> []" by simp
  have h2: "\<forall>n\<in>set [2, 1, 0]. n \<le> length (past ?S)" by simp
  from redo_inverts_undo [of ?S ?S ?S ?S 2 "[2, 1, 0]"] h0 h1 h2
  have "\<exists>u. undo ?S ?S = Some u \<and> u \<noteq> ?S \<and> redo ?S u = Some ?S"
    and "\<exists>u. undo ?S ?S = Some u \<and> u \<noteq> ?S \<and> redo u u = Some ?S"
    and "run (concat (replicate 2 [Undo, Redo])) ?S = Some ?S"
    and "run (alternating [2, 1, 0]) ?S = Some ?S"
    by blast+
  moreover have "2 \<le> length (past ?S)" by simp
  ultimately show ?thesis
    using h0 unfolding a b by blast
qed

text \<open>
  C3: at construction \<open>past\<close> is empty and \<open>canUndo\<close> is false. A handler of that render
  that calls \<open>set(1, "inc")\<close> and then \<open>undo()\<close> leaves the cell as \<open>set\<close> made it, with
  the entry 0 in \<open>past\<close>: \<open>undo\<close> returns at the flag of its render and moves nothing.
  In the same way, from a render with an empty \<open>future\<close>, \<open>redo()\<close> after \<open>undo()\<close> in one
  handler moves nothing although \<open>future\<close> then holds an entry.
\<close>

theorem undo_skipped_after_set_in_one_handler:
  "handler (useHistoryState_init (JSNumber (Fin 0)) None)
      [Set (Value (JSNumber (Fin 1))) (Some ''inc'') ''10:15:00 AM'']
      (useHistoryState_init (JSNumber (Fin 0)) None)
     = Some \<lparr>past = [num_entry 0 ''Initial State''], present = num_entry 1 ''inc'', future = []\<rparr>
   \<and> handler (useHistoryState_init (JSNumber (Fin 0)) None)
      [Set (Value (JSNumber (Fin 1))) (Some ''inc'') ''10:15:00 AM'', Undo]
      (useHistoryState_init (JSNumber (Fin 0)) None)
     = Some \<lparr>past = [num_entry 0 ''Initial State''], present = num_entry 1 ''inc'', future = []\<rparr>
   \<and> handler \<lparr>past = [num_entry 0 ''Initial State''], present = num_entry 1 ''inc'', future = []\<rparr>
      [Undo]
      \<lparr>past = [num_entry 0 ''Initial State''], present = num_entry 1 ''inc'', future = []\<rparr>
     = Some \<lparr>past = [], present = num_entry 0 ''Initial State'', future = [num_entry 1 ''inc'']\<rparr>
   \<and> handler \<lparr>past = [num_entry 0 ''Initial State''], present = num_entry 1 ''inc'', future = []\<rparr>
      [Undo, Redo]
      \<lparr>past = [num_entry 0 ''Initial State''], present = num_entry 1 ''inc'', future = []\<rparr>
     = Some \<lparr>past = [], present = num_entry 0 ''Initial State'', future = [num_entry 1 ''inc'']\<rparr>"
  by (simp add: useHistoryState_init_def set_present_def set_updater_def set_label_def
      resolvedPresentState_def number_equal_def num_entry_def undo_cases redo_cases)

text \<open>
  C4: a call of \<open>set\<close> whose resolved value is \<open>===\<close> to the present value returns the
  state it was given: \<open>past\<close>, \<open>present\<close> and \<open>future\<close> are unchanged and no entry is
  created. The test is identity: a reference to another object with the same properties
  and values as the present one is not a no-op, it creates an entry.
\<close>

theorem set_same_value_is_noop:
  "(strict_eq (resolvedPresentState newPresentState cur) (state (present cur)) \<longrightarrow>
      set_present newPresentState lbl now cur = cur)
   \<and> (state (present cur) = JSObject p \<and> q \<noteq> p
        \<and> structurally_equal h (JSObject q) (JSObject p) \<longrightarrow>
      set_present (Value (JSObject q)) lbl now cur =
        \<lparr>past = past cur @ [present cur],
         present = \<lparr>state = JSObject q, label = set_label lbl now\<rparr>,
         future = []\<rparr>
      \<and> set_present (Value (JSObject q)) lbl now cur \<noteq> cur)"
proof (intro conjI impI)
  assume "strict_eq (resolvedPresentState newPresentState cur) (state (present cur))"
  then show "set_present newPresentState lbl now cur = cur"
    by (rule set_present_same)
next
  assume a: "state (present cur) = JSObject p \<and> q \<noteq> p
        \<and> structurally_equal h (JSObject q) (JSObject p)"
  then have "\<not> strict_eq (resolvedPresentState (Value (JSObject q)) cur) (state (present cur))"
    by (simp add: resolvedPresentState_def)
  then have eq: "set_present (Value (JSObject q)) lbl now cur =
        \<lparr>past = past cur @ [present cur],
         present = \<lparr>state = resolvedPresentState (Value (JSObject q)) cur,
                    label = set_label lbl now\<rparr>,
         future = []\<rparr>"
    by (rule set_present_changed)
  then show "set_present (Value (JSObject q)) lbl now cur =
        \<lparr>past = past cur @ [present cur],
         present = \<lparr>state = JSObject q, label = set_label lbl now\<rparr>,
         future = []\<rparr>"
    by (simp add: resolvedPresentState_def)
  have "past (set_present (Value (JSObject q)) lbl now cur) \<noteq> past cur"
    by (simp add: eq)
  then show "set_present (Value (JSObject q)) lbl now cur \<noteq> cur"
    by auto
qed

theorem set_same_value_is_noop_witness:
  "strict_eq
     (resolvedPresentState (Updater (\<lambda>v. v))
        \<lparr>past = [\<lparr>state = JSObject 0, label = ''Initial State''\<rparr>],
         present = \<lparr>state = JSObject 1, label = ''Added Ada''\<rparr>, future = []\<rparr>)
     (state (present
        \<lparr>past = [\<lparr>state = JSObject 0, label = ''Initial State''\<rparr>],
         present = \<lparr>state = JSObject 1, label = ''Added Ada''\<rparr>, future = []\<rparr>))
   \<and> set_present (Updater (\<lambda>v. v)) None ''10:15:00 AM''
        \<lparr>past = [\<lparr>state = JSObject 0, label = ''Initial State''\<rparr>],
         present = \<lparr>state = JSObject 1, label = ''Added Ada''\<rparr>, future = []\<rparr>
      = \<lparr>past = [\<lparr>state = JSObject 0, label = ''Initial State''\<rparr>],
         present = \<lparr>state = JSObject 1, label = ''Added Ada''\<rparr>, future = []\<rparr>
   \<and> (2::nat) \<noteq> 1
   \<and> structurally_equal
        ((\<lambda>a. None)(0 := Some [], 1 := Some [(''0'', JSString ''Ada'')],
                     2 := Some [(''0'', JSString ''Ada'')]))
        (JSObject 2) (JSObject 1)
   \<and> set_present (Value (JSObject 2)) (Some ''Saved'') ''10:15:00 AM''
        \<lparr>past = [\<lparr>state = JSObject 0, label = ''Initial State''\<rparr>],
         present = \<lparr>state = JSObject 1, label = ''Added Ada''\<rparr>, future = []\<rparr>
      = \<lparr>past = [\<lparr>state = JSObject 0, label = ''Initial State''\<rparr>,
                 \<lparr>state = JSObject 1, label = ''Added Ada''\<rparr>],
         present = \<lparr>state = JSObject 2, label = ''Saved''\<rparr>, future = []\<rparr>"
proof -
  let ?S = "\<lparr>past = [\<lparr>state = JSObject 0, label = ''Initial State''\<rparr>],
         present = \<lparr>state = JSObject 1, label = ''Added Ada''\<rparr>, future = []\<rparr>"
  let ?h = "(\<lambda>a. None)(0 := Some [], 1 := Some [(''0'', JSString ''Ada'')],
                     2 := Some [(''0'', JSString ''Ada'')])"
  have h1: "strict_eq (resolvedPresentState (Updater (\<lambda>v. v)) ?S) (state (present ?S))"
    by (simp add: resolvedPresentState_def)
  have h2: "state (present ?S) = JSObject 1 \<and> (2::nat) \<noteq> 1
        \<and> structurally_equal ?h (JSObject 2) (JSObject 1)"
    by (simp add: structurally_equal_def)
  show ?thesis
    using h1 h2
      set_same_value_is_noop [of "Updater (\<lambda>v. v)" ?S None "''10:15:00 AM''" 1 2 ?h]
      set_same_value_is_noop [of "Updater (\<lambda>v. v)" ?S "Some ''Saved''" "''10:15:00 AM''" 1 2 ?h]
    by (simp add: set_label_def)
qed

text \<open>
  C5: whatever the state, \<open>setInitial\<close> replaces it with an empty \<open>past\<close>, the present
  entry made of the given value and label (\<open>Initial State\<close> when no label is given) and
  an empty \<open>future\<close>; afterwards \<open>canUndo\<close> and \<open>canRedo\<close> are both false.
\<close>

theorem setInitial_discards_history:
  "setInitial x (Some lbl) cur = \<lparr>past = [], present = \<lparr>state = x, label = lbl\<rparr>, future = []\<rparr>
   \<and> setInitial x None cur =
       \<lparr>past = [], present = \<lparr>state = x, label = ''Initial State''\<rparr>, future = []\<rparr>
   \<and> \<not> canUndo (setInitial x l cur) \<and> \<not> canRedo (setInitial x l cur)"
  by (simp add: setInitial_def canUndo_def canRedo_def)

theorem setInitial_discards_history_witness:
  "setInitial (JSObject 7) (Some ''Restored from backup'')
      \<lparr>past = [num_entry 0 ''Initial State'', num_entry 1 ''inc''],
          present = num_entry 2 ''inc'', future = [num_entry 3 ''inc'']\<rparr>
     = \<lparr>past = [], present = \<lparr>state = JSObject 7, label = ''Restored from backup''\<rparr>,
        future = []\<rparr>
   \<and> \<not> canUndo (setInitial (JSObject 7) (Some ''Restored from backup'')
      \<lparr>past = [num_entry 0 ''Initial State'', num_entry 1 ''inc''],
          present = num_entry 2 ''inc'', future = [num_entry 3 ''inc'']\<rparr>)
   \<and> \<not> canRedo (setInitial (JSObject 7) (Some ''Restored from backup'')
      \<lparr>past = [num_entry 0 ''Initial State'', num_entry 1 ''inc''],
          present = num_entry 2 ''inc'', future = [num_entry 3 ''inc'']\<rparr>)"
  using setInitial_discards_history
    [of "JSObject 7" "''Restored from backup''"
        "\<lparr>past = [num_entry 0 ''Initial State'', num_entry 1 ''inc''],
          present = num_entry 2 ''inc'', future = [num_entry 3 ''inc'']\<rparr>"
        "Some ''Restored from backup''"]
  by blast

text \<open>
  C6: from a render whose \<open>past\<close> holds one entry, two \<open>undo()\<close> calls in one handler:
  the first empties \<open>past\<close>, the second finds the flag of its render still true and runs
  its updater on the empty \<open>past\<close>. The outcome is not the unchanged state but the one
  without a \<open>present\<close> entry, at which the next render fails. The same holds of two
  \<open>redo()\<close> calls from a render whose \<open>future\<close> holds one entry.
\<close>

theorem second_undo_in_one_handler_fails:
  "handler \<lparr>past = [num_entry 0 ''Initial State''], present = num_entry 1 ''inc'', future = []\<rparr>
      [Undo]
      \<lparr>past = [num_entry 0 ''Initial State''], present = num_entry 1 ''inc'', future = []\<rparr>
     = Some \<lparr>past = [], present = num_entry 0 ''Initial State'', future = [num_entry 1 ''inc'']\<rparr>
   \<and> undo \<lparr>past = [num_entry 0 ''Initial State''], present = num_entry 1 ''inc'', future = []\<rparr>
        \<lparr>past = [], present = num_entry 0 ''Initial State'', future = [num_entry 1 ''inc'']\<rparr>
     = None
   \<and> handler \<lparr>past = [num_entry 0 ''Initial State''], present = num_entry 1 ''inc'', future = []\<rparr>
      [Undo, Undo]
      \<lparr>past = [num_entry 0 ''Initial State''], present = num_entry 1 ''inc'', future = []\<rparr>
     = None
   \<and> handler \<lparr>past = [], present = num_entry 0 ''Initial State'', future = [num_entry 1 ''inc'']\<rparr>
      [Redo, Redo]
      \<lparr>past = [], present = num_entry 0 ''Initial State'', future = [num_entry 1 ''inc'']\<rparr>
     = None"
  by (simp add: undo_cases redo_cases)

text \<open>
  C7: whatever the state, \<open>clearHistory\<close> empties \<open>past\<close> and \<open>future\<close> and leaves the
  present entry as it was, its value and its label.
\<close>

theorem clearHistory_keeps_present:
  "clearHistory cur = \<lparr>past = [], present = present cur, future = []\<rparr>
   \<and> state (present (clearHistory cur)) = state (present cur)
   \<and> label (present (clearHistory cur)) = label (present cur)"
  by (simp add: clearHistory_def clearHistory_updater_def)

theorem clearHistory_keeps_present_witness:
  "clearHistory \<lparr>past = [num_entry 0 ''Initial State'', num_entry 1 ''inc''],
          present = num_entry 2 ''inc'', future = [num_entry 3 ''inc'']\<rparr>
     = \<lparr>past = [], present = num_entry 2 ''inc'', future = []\<rparr>"
  using clearHistory_keeps_present
    [of "\<lparr>past = [num_entry 0 ''Initial State'', num_entry 1 ''inc''],
          present = num_entry 2 ''inc'', future = [num_entry 3 ''inc'']\<rparr>"]
  by simp

text \<open>
  C8: from construction with 0, a handler that calls \<open>set(1, "inc")\<close>, the render that
  follows, and a handler that calls \<open>undo()\<close> twice lead to a cell without a \<open>present\<close>
  entry: the render fails at \<open>state.present.state\<close> and returns none of \<open>canUndo\<close>,
  \<open>canRedo\<close>, \<open>history\<close>, \<open>currentLabel\<close>.
\<close>

theorem construction_set_undo_undo_has_no_present:
  "session [[Set (Value (JSNumber (Fin 1))) (Some ''inc'') ''10:15:00 AM'']]
      (useHistoryState_init (JSNumber (Fin 0)) None)
     = Some \<lparr>past = [num_entry 0 ''Initial State''], present = num_entry 1 ''inc'', future = []\<rparr>
   \<and> session [[Set (Value (JSNumber (Fin 1))) (Some ''inc'') ''10:15:00 AM''], [Undo, Undo]]
      (useHistoryState_init (JSNumber (Fin 0)) None)
     = None"
  by (simp add: useHistoryState_init_def set_present_def set_updater_def set_label_def
      resolvedPresentState_def number_equal_def num_entry_def undo_cases redo_cases)

text \<open>
  C9: the worked example. From the state built with the initial value 0, the calls
  \<open>set(1, "inc")\<close>, \<open>set(2, "inc")\<close>, \<open>undo()\<close>, \<open>undo()\<close>, \<open>redo()\<close>, \<open>set(5, "jump")\<close> go
  through present 1, past [0], future []; present 2, past [0, 1], future []; present 1,
  past [0], future [2]; present 0, past [], future [1, 2]; present 1, past [0],
  future [2]; and end with present 5, past [0, 1], future [], the entry 2 being dropped.
\<close>

theorem worked_example:
  "run [Set (Value (JSNumber (Fin 1))) (Some ''inc'') t1]
       (useHistoryState_init (JSNumber (Fin 0)) None)
     = Some \<lparr>past = [num_entry 0 ''Initial State''], present = num_entry 1 ''inc'', future = []\<rparr>
   \<and> run [Set (Value (JSNumber (Fin 1))) (Some ''inc'') t1,
           Set (Value (JSNumber (Fin 2))) (Some ''inc'') t2]
       (useHistoryState_init (JSNumber (Fin 0)) None)
     = Some \<lparr>past = [num_entry 0 ''Initial State'', num_entry 1 ''inc''],
             present = num_entry 2 ''inc'', future = []\<rparr>
   \<and> run [Set (Value (JSNumber (Fin 1))) (Some ''inc'') t1,
           Set (Value (JSNumber (Fin 2))) (Some ''inc'') t2, Undo]
       (useHistoryState_init (JSNumber (Fin 0)) None)
     = Some \<lparr>past = [num_entry 0 ''Initial State''], present = num_entry 1 ''inc'',
             future = [num_entry 2 ''inc'']\<rparr>
   \<and> run [Set (Value (JSNumber (Fin 1))) (Some ''inc'') t1,
           Set (Value (JSNumber (Fin 2))) (Some ''inc'') t2, Undo, Undo]
       (useHistoryState_init (JSNumber (Fin 0)) None)
     = Some \<lparr>past = [], present = num_entry 0 ''Initial State'',
             future = [num_entry 1 ''inc'', num_entry 2 ''inc'']\<rparr>
   \<and> run [Set (Value (JSNumber (Fin 1))) (Some ''inc'') t1,
           Set (Value (JSNumber (Fin 2))) (Some ''inc'') t2, Undo, Undo, Redo]
       (useHistoryState_init (JSNumber (Fin 0)) None)
     = Some \<lparr>past = [num_entry 0 ''Initial State''], present = num_entry 1 ''inc'',
             future = [num_entry 2 ''inc'']\<rparr>
   \<and> run [Set (Value (JSNumber (Fin 1))) (Some ''inc'') t1,
           Set (Value (JSNumber (Fin 2))) (Some ''inc'') t2, Undo, Undo, Redo,
           Set (Value (JSNumber (Fin 5))) (Some ''jump'') t3]
       (useHistoryState_init (JSNumber (Fin 0)) None)
     = Some \<lparr>past = [num_entry 0 ''Initial State'', num_entry 1 ''inc''],
             present = num_entry 5 ''jump'', future = []\<rparr>"
  by (simp add: useHistoryState_init_def set_present_def set_updater_def set_label_def
      resolvedPresentState_def number_equal_def num_entry_def undo_latest redo_latest)

theorem worked_example_witness:
  "run [Set (Value (JSNumber (Fin 1))) (Some ''inc'') ''10:15:00 AM'',
        Set (Value (JSNumber (Fin 2))) (Some ''inc'') ''10:15:05 AM'', Undo, Undo, Redo,
        Set (Value (JSNumber (Fin 5))) (Some ''jump'') ''10:15:30 AM'']
       (useHistoryState_init (JSNumber (Fin 0)) None)
     = Some \<lparr>past = [num_entry 0 ''Initial State'', num_entry 1 ''inc''],
             present = num_entry 5 ''jump'', future = []\<rparr>"
  using worked_example [of "''10:15:00 AM''" "''10:15:05 AM''" "''10:15:30 AM''"]
  by blast

text \<open>
  C10: from a render whose \<open>past\<close> holds two entries, two \<open>undo()\<close> calls in one handler
  keep the timeline, and a third one does not: its updater runs on an empty \<open>past\<close> and
  the outcome is the state without a \<open>present\<close> entry. The same holds of the second of
  two \<open>redo()\<close> calls from a render whose \<open>future\<close> holds one entry.
\<close>

theorem batched_undo_redo_break_timeline:
  "timeline \<lparr>past = [num_entry 0 ''Initial State'', num_entry 1 ''inc''],
             present = num_entry 2 ''inc'', future = []\<rparr>
     = [num_entry 0 ''Initial State'', num_entry 1 ''inc'', num_entry 2 ''inc'']
   \<and> handler \<lparr>past = [num_entry 0 ''Initial State'', num_entry 1 ''inc''],
               present = num_entry 2 ''inc'', future = []\<rparr>
      [Undo, Undo]
      \<lparr>past = [num_entry 0 ''Initial State'', num_entry 1 ''inc''],
        present = num_entry 2 ''inc'', future = []\<rparr>
     = Some \<lparr>past = [], present = num_entry 0 ''Initial State'',
             future = [num_entry 1 ''inc'', num_entry 2 ''inc'']\<rparr>
   \<and> handler \<lparr>past = [num_entry 0 ''Initial State'', num_entry 1 ''inc''],
               present = num_entry 2 ''inc'', future = []\<rparr>
      [Undo, Undo, Undo]
      \<lparr>past = [num_entry 0 ''Initial State'', num_entry 1 ''inc''],
        present = num_entry 2 ''inc'', future = []\<rparr>
     = None
   \<and> handler \<lparr>past = [num_entry 0 ''Initial State''], present = num_entry 1 ''inc'',
               future = [num_entry 2 ''inc'']\<rparr>
      [Redo, Redo]
      \<lparr>past = [num_entry 0 ''Initial State''], present = num_entry 1 ''inc'',
        future = [num_entry 2 ''inc'']\<rparr>
     = None"
  by (simp add: timeline_def undo_cases redo_cases)

end
